theory Spec2Isabelle
  imports Main "HOL-Library.AList"
begin

section \<open>The timer engine of timer-core\<close>

text \<open>
  The package has two source files: the timer itself (state machine, configuration,
  emission loop) and \<^verbatim>\<open>subtimer.go\<close> (the subtimer registry). The timer file is present
  in two revisions; the embedding follows the revision whose operations are guarded by
  \<^verbatim>\<open>checkValidState\<close> and return an \<^verbatim>\<open>error\<close>. That revision declares the third policy
  switch as \<^verbatim>\<open>stopOnSubtimersStop\<close> while \<^verbatim>\<open>subtimer.go\<close> reads it as
  \<^verbatim>\<open>stopOnSubtimersFinish\<close>; the field carries the name under which it is read.

  Every method with a pointer receiver becomes a function that takes the Timer and returns
  the Timer it leaves behind, next to the values the method returns. A call to
  \<^verbatim>\<open>time.Now()\<close> becomes an argument \<open>now\<close>.
\<close>

subsection \<open>Time\<close>

text \<open>
  An instant (\<^verbatim>\<open>time.Time\<close>) is a count of nanoseconds on the clock; a
  \<^verbatim>\<open>time.Duration\<close> is a signed 64-bit count of nanoseconds. \<^verbatim>\<open>Time.Sub\<close> (and
  \<^verbatim>\<open>time.Since\<close>, which is \<^verbatim>\<open>Now().Sub\<close>) clamps its result to the range of a
  Duration.
\<close>

type_synonym instant = int
type_synonym duration = int

definition maxDuration :: duration where
  "maxDuration = 2 ^ 63 - 1"

definition minDuration :: duration where
  "minDuration = - (2 ^ 63)"

definition time_Sub :: "instant \<Rightarrow> instant \<Rightarrow> duration" where
  "time_Sub t u =
     (if maxDuration < t - u then maxDuration
      else if t - u < minDuration then minDuration
      else t - u)"

definition time_Since :: "instant \<Rightarrow> instant \<Rightarrow> duration" where
  "time_Since now u = time_Sub now u"

definition time_Add :: "instant \<Rightarrow> duration \<Rightarrow> instant" where
  "time_Add t d = t + d"

definition Millisecond :: duration where
  "Millisecond = 1000000"

text \<open>
  \<^verbatim>\<open>time.Duration(n) * time.Millisecond\<close> is a product of 64-bit integers and wraps.
\<close>

definition wrap64 :: "int \<Rightarrow> int" where
  "wrap64 x = (x + 2 ^ 63) mod 2 ^ 64 - 2 ^ 63"

definition milliseconds :: "int \<Rightarrow> duration" where
  "milliseconds n = wrap64 (n * Millisecond)"

subsection \<open>Panics and errors\<close>

text \<open>
  Nothing in the package recovers from a panic, so a panic ends the run: it is the
  \<open>Inl\<close> side of a result. The two panics the operations can raise are a method call
  through a nil \<^verbatim>\<open>*time.Ticker\<close> and \<^verbatim>\<open>time.NewTicker\<close> on a non-positive duration.
\<close>

datatype panic = NilPointerDereference | NonPositiveTickerInterval

datatype operation = resetOp | startOp | pauseOp | resumeOp | stopOp

text \<open>
  The package builds its errors with \<^verbatim>\<open>fmt.Errorf\<close>; there is one constructor per site:
  \<^item> \<open>InvalidStateTransition op\<close>: \<^verbatim>\<open>"StartTimer called with invalid state"\<close>,
    \<^verbatim>\<open>"StopTimer called with invalid state"\<close>, \<^verbatim>\<open>"ResetTimer called with invalid state"\<close>,
    \<^verbatim>\<open>"PauseTimer called with invalid state"\<close>;
  \<^item> \<open>UpdateIntervalNotStopped\<close>: \<^verbatim>\<open>"UpdateInterval can only be changed when timer is stopped"\<close>;
  \<^item> \<open>InvalidConfigValue\<close>: \<^verbatim>\<open>"Only positive values for updateInterval are allowed"\<close>;
  \<^item> \<open>InvalidState\<close>: \<^verbatim>\<open>"Subtimer can only be added when timer is in reset state"\<close>;
  \<^item> \<open>DuplicateIdentifier id\<close>: \<^verbatim>\<open>"Subtimer with key %v already exists"\<close>;
  \<^item> \<open>UnknownIdentifier id\<close>: \<^verbatim>\<open>"Subtimer with id %v does not exist"\<close>.
  A returned \<^verbatim>\<open>error\<close> is an \<open>error option\<close>, \<open>None\<close> being \<^verbatim>\<open>nil\<close>.
\<close>

datatype error =
    InvalidStateTransition operation
  | UpdateIntervalNotStopped
  | InvalidConfigValue
  | InvalidState
  | DuplicateIdentifier int
  | UnknownIdentifier int

subsection \<open>Data\<close>

datatype State = Reset | Running | Paused | Stopped

record subtimer =
  Time :: duration
  state :: State

text \<open>
  A \<^verbatim>\<open>*time.Ticker\<close> is \<open>None\<close> when nil; a ticker knows its period and whether it
  still fires.
\<close>

record Ticker =
  period :: duration
  active :: bool

text \<open>
  The registry \<^verbatim>\<open>map[int]*subtimer\<close> is an association list read through \<open>map_of\<close> and
  written through \<open>AList.update\<close>; each key owns its record, no two keys share one.
  The channel \<^verbatim>\<open>Updates\<close> holds no value (it is unbuffered): what is sent on it is the
  output of the emission loop.
\<close>

record Timer =
  updateInterval :: int
  tickerInterval :: int
  ticker :: "Ticker option"
  updateTicker :: "Ticker option"
  State :: State
  startTime :: instant
  elapsed :: duration
  pauseTime :: instant
  subtimers :: "(int \<times> subtimer) list"
  allowResumeAfterStop :: bool
  continueCountingWhenStopped :: bool
  stopOnSubtimersFinish :: bool

definition defaultUpdateInterval :: int where
  "defaultUpdateInterval = 10"

definition defaultTickerInterval :: int where
  "defaultTickerInterval = 10"

definition zeroTime :: instant where
  "zeroTime = 0"

definition New :: Timer where
  "New = \<lparr> updateInterval = defaultUpdateInterval,
           tickerInterval = defaultTickerInterval,
           ticker = None,
           updateTicker = None,
           State = Stopped,
           startTime = zeroTime,
           elapsed = 0,
           pauseTime = zeroTime,
           subtimers = [],
           allowResumeAfterStop = False,
           continueCountingWhenStopped = False,
           stopOnSubtimersFinish = False \<rparr>"

subsection \<open>The state machine\<close>

fun checkValidState :: "Timer \<Rightarrow> operation \<Rightarrow> bool" where
  "checkValidState t resetOp = (State t = Stopped)"
| "checkValidState t startOp = (State t = Reset)"
| "checkValidState t pauseOp = (State t = Running)"
| "checkValidState t resumeOp = (State t = Paused \<or> (State t = Stopped \<and> allowResumeAfterStop t))"
| "checkValidState t stopOp = (State t = Running \<or> State t = Paused)"

definition SetUpdateInterval :: "int \<Rightarrow> Timer \<Rightarrow> Timer \<times> error option" where
  "SetUpdateInterval v t =
     (if State t \<noteq> Stopped then (t, Some UpdateIntervalNotStopped)
      else if v < 0 then (t, Some InvalidConfigValue)
      else if v = 0 then (t\<lparr>updateInterval := defaultUpdateInterval\<rparr>, None)
      else (t\<lparr>updateInterval := v\<rparr>, None))"

definition NewTicker :: "duration \<Rightarrow> panic + Ticker" where
  "NewTicker d =
     (if d \<le> 0 then Inl NonPositiveTickerInterval
      else Inr \<lparr> period = d, active = True \<rparr>)"

definition Ticker_Stop :: "Ticker option \<Rightarrow> panic + Ticker option" where
  "Ticker_Stop p =
     (case p of None \<Rightarrow> Inl NilPointerDereference
      | Some k \<Rightarrow> Inr (Some (k\<lparr>active := False\<rparr>)))"

text \<open>
  \<^verbatim>\<open>StartTimer\<close> ends with \<^verbatim>\<open>go t.startSubTimers()\<close> and \<^verbatim>\<open>go t.timerLoop()\<close>. A
  \<^verbatim>\<open>go\<close> statement only schedules the call: the two bodies are the functions
  \<open>startSubTimers\<close> and \<open>timerLoop\<close> below, which run as steps of their own.
\<close>

definition StartTimer :: "instant \<Rightarrow> Timer \<Rightarrow> panic + Timer \<times> error option" where
  "StartTimer now t =
     (if \<not> checkValidState t startOp then Inr (t, Some (InvalidStateTransition startOp))
      else
        let t1 = t\<lparr>State := Running\<rparr> in
        case NewTicker (milliseconds (tickerInterval t1)) of
          Inl p \<Rightarrow> Inl p
        | Inr k \<Rightarrow>
            let t2 = t1\<lparr>ticker := Some k\<rparr> in
            (case NewTicker (milliseconds (updateInterval t2)) of
               Inl p \<Rightarrow> Inl p
             | Inr u \<Rightarrow> Inr (t2\<lparr>updateTicker := Some u, startTime := now\<rparr>, None)))"

definition StopTimer :: "Timer \<Rightarrow> panic + Timer \<times> error option" where
  "StopTimer t =
     (if \<not> checkValidState t stopOp then Inr (t, Some (InvalidStateTransition stopOp))
      else
        let t1 = t\<lparr>State := Stopped\<rparr> in
        case Ticker_Stop (ticker t1) of
          Inl p \<Rightarrow> Inl p
        | Inr k \<Rightarrow>
            let t2 = t1\<lparr>ticker := k\<rparr> in
            (case Ticker_Stop (updateTicker t2) of
               Inl p \<Rightarrow> Inl p
             | Inr u \<Rightarrow> Inr (t2\<lparr>updateTicker := u\<rparr>, None)))"

definition ResetTimer :: "Timer \<Rightarrow> Timer \<times> error option" where
  "ResetTimer t =
     (if \<not> checkValidState t resetOp then (t, Some (InvalidStateTransition resetOp))
      else (t\<lparr>subtimers := [], State := Reset, ticker := None, updateTicker := None\<rparr>, None))"

definition PauseTimer :: "instant \<Rightarrow> Timer \<Rightarrow> Timer \<times> error option" where
  "PauseTimer now t =
     (if \<not> checkValidState t pauseOp then (t, Some (InvalidStateTransition pauseOp))
      else (t\<lparr>State := Paused, pauseTime := now\<rparr>, None))"

definition resumeAfterStop :: "Timer \<Rightarrow> Timer" where
  "resumeAfterStop t = t"

text \<open>\<^verbatim>\<open>resumeAfterPause\<close> ends with \<^verbatim>\<open>go t.timerLoop()\<close>, a second instance of the loop.\<close>

definition resumeAfterPause :: "instant \<Rightarrow> Timer \<Rightarrow> Timer" where
  "resumeAfterPause now t =
     t\<lparr>startTime := time_Add (startTime t) (time_Since now (pauseTime t)), State := Running\<rparr>"

definition ResumeTimer :: "instant \<Rightarrow> Timer \<Rightarrow> Timer \<times> error option" where
  "ResumeTimer now t =
     (if State t = Paused then (resumeAfterPause now t, None)
      else if State t = Stopped \<and> allowResumeAfterStop t then (resumeAfterStop t, None)
      else (t, None))"

subsection \<open>The emission loop\<close>

text \<open>
  \<^verbatim>\<open>timerLoop\<close> never returns. Each iteration evaluates \<^verbatim>\<open>t.ticker.C\<close> (a panic when the
  ticker is nil), waits for the ticker to fire, and, when the timer is Running, stores
  \<^verbatim>\<open>time.Now().Sub(t.startTime)\<close> in \<^verbatim>\<open>elapsed\<close> and sends it on \<^verbatim>\<open>Updates\<close>. The model
  runs the loop over the clock readings of the ticks it receives, one list element per
  tick, and returns the Timer together with the values sent, oldest first; when the list
  is used up the loop is waiting in its \<^verbatim>\<open>select\<close>. The loop keeps nothing between two
  iterations, so the iterations of several instances of the loop are the iterations of
  one, and an operation called between two ticks is a call between two runs of
  \<open>timerLoop\<close>. An iteration is one step: the model does not split it.
\<close>

fun timerLoop :: "instant list \<Rightarrow> Timer \<Rightarrow> panic + Timer \<times> duration list" where
  "timerLoop [] t =
     (case ticker t of None \<Rightarrow> Inl NilPointerDereference | Some k \<Rightarrow> Inr (t, []))"
| "timerLoop (now # ticks) t =
     (case ticker t of
        None \<Rightarrow> Inl NilPointerDereference
      | Some k \<Rightarrow>
          if State t = Running then
            let t1 = t\<lparr>elapsed := time_Sub now (startTime t)\<rparr> in
            (case timerLoop ticks t1 of
               Inl p \<Rightarrow> Inl p
             | Inr (t2, sent) \<Rightarrow> Inr (t2, elapsed t1 # sent))
          else timerLoop ticks t)"

subsection \<open>The subtimer registry\<close>

definition AddSubTimer :: "int \<Rightarrow> Timer \<Rightarrow> Timer \<times> error option" where
  "AddSubTimer sid t =
     (if State t \<noteq> Reset then (t, Some InvalidState)
      else case map_of (subtimers t) sid of
        Some s \<Rightarrow> (t, Some (DuplicateIdentifier sid))
      | None \<Rightarrow>
          let s = \<lparr> Time = 0, state = Reset \<rparr> in
          (t\<lparr>subtimers := AList.update sid s (subtimers t)\<rparr>, None))"

text \<open>
  \<^verbatim>\<open>checkSubTimerFinish\<close> ranges over the entries of the map: every key once, with the
  record the map holds for it. (The parameter \<^verbatim>\<open>id\<close> of the source is \<open>sid\<close>
  here, \<open>id\<close> being the identity function of HOL.)
\<close>

definition checkSubTimerFinish :: "Timer \<Rightarrow> bool" where
  "checkSubTimerFinish t =
     list_all (\<lambda>k. case map_of (subtimers t) k of
                     None \<Rightarrow> True
                   | Some s \<Rightarrow> state s = Stopped)
       (map fst (subtimers t))"

text \<open>
  \<^verbatim>\<open>StopSubTimer\<close> writes through the pointer the map holds, then calls
  \<^verbatim>\<open>t.StopTimer()\<close> as a statement: the error that call returns is dropped. The
  \<^verbatim>\<open>if\<close> on both states being Running has an empty body and is left out.
\<close>

definition StopSubTimer :: "int \<Rightarrow> Timer \<Rightarrow> panic + Timer \<times> duration \<times> error option" where
  "StopSubTimer sid t =
     (case map_of (subtimers t) sid of
        None \<Rightarrow> Inr (t, 0, Some (UnknownIdentifier sid))
      | Some s \<Rightarrow>
          let s1 = s\<lparr>state := Stopped, Time := elapsed t\<rparr>;
              t1 = t\<lparr>subtimers := AList.update sid s1 (subtimers t)\<rparr>
          in
          if stopOnSubtimersFinish t1 \<and> checkSubTimerFinish t1 then
            (case StopTimer t1 of
               Inl p \<Rightarrow> Inl p
             | Inr (t2, e) \<Rightarrow> Inr (t2, Time s1, None))
          else Inr (t1, Time s1, None))"

definition startSubTimers :: "Timer \<Rightarrow> Timer" where
  "startSubTimers t =
     (if length (subtimers t) \<le> 0 then t
      else t\<lparr>subtimers := map (\<lambda>(k, s). (k, s\<lparr>state := Running\<rparr>)) (subtimers t)\<rparr>)"

subsection \<open>Tickers of a timer in use\<close>

text \<open>
  \<^verbatim>\<open>StopTimer\<close> calls \<^verbatim>\<open>Stop\<close> on both tickers, which panics on a nil ticker. A Timer
  that is Running or Paused got there through \<^verbatim>\<open>StartTimer\<close>, which creates both: this
  is the invariant \<open>tickersReady\<close>, established by \<open>New\<close> and kept by every operation.
\<close>

definition tickersReady :: "Timer \<Rightarrow> bool" where
  "tickersReady t =
     (if State t = Running \<or> State t = Paused
      then ticker t \<noteq> None \<and> updateTicker t \<noteq> None
      else True)"

subsection \<open>A run of the timer\<close>

text \<open>
  The Timers of one run, used as concrete inputs below: \<open>New\<close> is reset, started at clock
  reading 1000, ticks once at 5000, is stopped, reset and started again at 6000. A
  second run registers the subtimers 1 and 2 before it starts. \<open>New\<close> takes no
  configuration in this revision, so a Timer with a policy switch set is written as an
  update of the record.
\<close>

definition exTicker :: Ticker where
  "exTicker = \<lparr> period = 10000000, active = True \<rparr>"

definition exReset :: Timer where
  "exReset = New\<lparr>State := Reset\<rparr>"

definition exRunning :: Timer where
  "exRunning = exReset\<lparr>State := Running, ticker := Some exTicker,
                       updateTicker := Some exTicker, startTime := 1000\<rparr>"

definition exTicked :: Timer where
  "exTicked = exRunning\<lparr>elapsed := 4000\<rparr>"

definition exStopped :: Timer where
  "exStopped = exTicked\<lparr>State := Stopped, ticker := Some (exTicker\<lparr>active := False\<rparr>),
                        updateTicker := Some (exTicker\<lparr>active := False\<rparr>)\<rparr>"

definition exRestarted :: Timer where
  "exRestarted = exStopped\<lparr>State := Running, ticker := Some exTicker,
                           updateTicker := Some exTicker, startTime := 6000\<rparr>"

definition exTwoReset :: Timer where
  "exTwoReset = exReset\<lparr>subtimers := [(1, \<lparr> Time = 0, state = Reset \<rparr>),
                                      (2, \<lparr> Time = 0, state = Reset \<rparr>)]\<rparr>"

definition exTwoRunning :: Timer where
  "exTwoRunning = exTicked\<lparr>subtimers := [(1, \<lparr> Time = 0, state = Running \<rparr>),
                                         (2, \<lparr> Time = 0, state = Running \<rparr>)]\<rparr>"

definition exTwoRunningF :: Timer where
  "exTwoRunningF = exTwoRunning\<lparr>stopOnSubtimersFinish := True\<rparr>"

definition exOneLeft :: Timer where
  "exOneLeft = exTwoReset\<lparr>stopOnSubtimersFinish := True,
                         subtimers := [(1, \<lparr> Time = 0, state = Stopped \<rparr>),
                                       (2, \<lparr> Time = 0, state = Reset \<rparr>)]\<rparr>"

definition exResumable :: Timer where
  "exResumable = exStopped\<lparr>allowResumeAfterStop := True\<rparr>"

section \<open>Properties\<close>

subsection \<open>The example run is a run\<close>

lemmas ex_defs =
  New_def exReset_def exRunning_def exTicked_def exStopped_def exRestarted_def exTicker_def
  exTwoReset_def exTwoRunning_def exTwoRunningF_def exOneLeft_def exResumable_def
  defaultUpdateInterval_def defaultTickerInterval_def zeroTime_def

lemmas time_defs =
  milliseconds_def Millisecond_def wrap64_def time_Sub_def time_Since_def time_Add_def
  maxDuration_def minDuration_def

lemma example_run:
  "ResetTimer New = (exReset, None)"
  "StartTimer 1000 exReset = Inr (exRunning, None)"
  "timerLoop [5000] exRunning = Inr (exTicked, [4000])"
  "StopTimer exTicked = Inr (exStopped, None)"
  "StartTimer 6000 (fst (ResetTimer exStopped)) = Inr (exRestarted, None)"
  by (simp_all add: ResetTimer_def StartTimer_def StopTimer_def NewTicker_def Ticker_Stop_def
      time_defs ex_defs)

lemma example_run_subtimers:
  "AddSubTimer 2 (fst (AddSubTimer 1 exReset)) = (exTwoReset, None)"
  "\<exists>t. StartTimer 1000 exTwoReset = Inr (t, None) \<and>
       timerLoop [5000] (startSubTimers t) = Inr (exTwoRunning, [4000])"
  "StopSubTimer 1 (exTwoReset\<lparr>stopOnSubtimersFinish := True\<rparr>) = Inr (exOneLeft, 0, None)"
  by (simp_all add: AddSubTimer_def StartTimer_def startSubTimers_def NewTicker_def
      StopSubTimer_def checkSubTimerFinish_def time_defs ex_defs)

subsection \<open>The tickers invariant\<close>

lemma tickersReady_New: "tickersReady New"
  by (simp add: tickersReady_def New_def)

lemma tickersReady_SetUpdateInterval:
  "tickersReady t \<Longrightarrow> tickersReady (fst (SetUpdateInterval v t))"
  by (auto simp: tickersReady_def SetUpdateInterval_def split: if_splits)

lemma tickersReady_StartTimer:
  "StartTimer now t = Inr (t', e) \<Longrightarrow> tickersReady t \<Longrightarrow> tickersReady t'"
  by (auto simp: tickersReady_def StartTimer_def Let_def split: if_splits sum.splits)

lemma tickersReady_StopTimer:
  "StopTimer t = Inr (t', e) \<Longrightarrow> tickersReady t \<Longrightarrow> tickersReady t'"
  by (auto simp: tickersReady_def StopTimer_def Let_def split: if_splits sum.splits)

lemma tickersReady_ResetTimer:
  "tickersReady t \<Longrightarrow> tickersReady (fst (ResetTimer t))"
  by (auto simp: tickersReady_def ResetTimer_def split: if_splits)

lemma tickersReady_PauseTimer:
  "tickersReady t \<Longrightarrow> tickersReady (fst (PauseTimer now t))"
  by (auto simp: tickersReady_def PauseTimer_def split: if_splits)

lemma tickersReady_ResumeTimer:
  "tickersReady t \<Longrightarrow> tickersReady (fst (ResumeTimer now t))"
  by (auto simp: tickersReady_def ResumeTimer_def resumeAfterPause_def resumeAfterStop_def
      split: if_splits)

lemma tickersReady_AddSubTimer:
  "tickersReady t \<Longrightarrow> tickersReady (fst (AddSubTimer sid t))"
  by (auto simp: tickersReady_def AddSubTimer_def Let_def split: if_splits option.splits)

lemma tickersReady_startSubTimers:
  "tickersReady t \<Longrightarrow> tickersReady (startSubTimers t)"
  by (auto simp: tickersReady_def startSubTimers_def split: if_splits)

lemma tickersReady_subtimers_update [simp]:
  "tickersReady (t\<lparr>subtimers := r\<rparr>) = tickersReady t"
  by (simp add: tickersReady_def)

lemma tickersReady_StopSubTimer:
  "StopSubTimer sid t = Inr (t', d, e) \<Longrightarrow> tickersReady t \<Longrightarrow> tickersReady t'"
  by (auto simp: StopSubTimer_def Let_def split: option.splits if_splits sum.splits
           dest: tickersReady_StopTimer)

lemma tickersReady_timerLoop:
  "timerLoop ticks t = Inr (t', sent) \<Longrightarrow> tickersReady t \<Longrightarrow> tickersReady t'"
proof (induction ticks arbitrary: t sent)
  case Nil
  then show ?case by (auto split: option.splits)
next
  case (Cons now ticks)
  then show ?case
    by (auto simp: Let_def tickersReady_def split: option.splits if_splits sum.splits)
qed

lemma StopTimer_ready:
  "tickersReady t \<Longrightarrow> \<exists>t' e. StopTimer t = Inr (t', e)"
  by (auto simp: tickersReady_def StopTimer_def Ticker_Stop_def Let_def split: if_splits)

lemma StopTimer_Running:
  assumes "State t = Running" and "ticker t = Some k" and "updateTicker t = Some u"
  shows "StopTimer t =
    Inr (t\<lparr>State := Stopped, ticker := Some (k\<lparr>active := False\<rparr>),
           updateTicker := Some (u\<lparr>active := False\<rparr>)\<rparr>, None)"
  using assms by (simp add: StopTimer_def Ticker_Stop_def Let_def)

subsection \<open>Reading the registry and the clock\<close>

lemma checkSubTimerFinish_iff:
  "checkSubTimerFinish t \<longleftrightarrow> (\<forall>k s. map_of (subtimers t) k = Some s \<longrightarrow> state s = Stopped)"
proof
  assume a: "checkSubTimerFinish t"
  show "\<forall>k s. map_of (subtimers t) k = Some s \<longrightarrow> state s = Stopped"
  proof (intro allI impI)
    fix k s
    assume m: "map_of (subtimers t) k = Some s"
    then have "k \<in> set (map fst (subtimers t))"
      by (metis map_of_eq_None_iff option.distinct(1) set_map)
    with a m show "state s = Stopped"
      by (auto simp: checkSubTimerFinish_def list_all_iff)
  qed
next
  assume "\<forall>k s. map_of (subtimers t) k = Some s \<longrightarrow> state s = Stopped"
  then show "checkSubTimerFinish t"
    by (auto simp: checkSubTimerFinish_def list_all_iff split: option.splits)
qed

lemma map_of_stop_update:
  "map_of (AList.update sid v r) k = (if k = sid then Some v else map_of r k)"
  by (simp add: update_conv')

lemma subtimer_snapshot [simp]:
  "(s::subtimer)\<lparr>state := Stopped, Time := d\<rparr> = \<lparr> Time = d, state = Stopped \<rparr>"
  by simp

lemma time_Sub_exact:
  "minDuration \<le> t - u \<Longrightarrow> t - u \<le> maxDuration \<Longrightarrow> time_Sub t u = t - u"
  by (simp add: time_Sub_def)


subsection \<open>Resuming\<close>

text \<open>
  Claim C9. For a Timer that is Running, Reset, or Stopped without
  \<^verbatim>\<open>allowResumeAfterStop\<close>, \<^verbatim>\<open>ResumeTimer\<close> returns nil and leaves every field as it
  was: the resume that is not allowed is a silent no-op, not an error.
\<close>

theorem ResumeTimer_invalid_is_noop:
  "State t = Running \<or> State t = Reset \<or> (State t = Stopped \<and> \<not> allowResumeAfterStop t)
   \<Longrightarrow> ResumeTimer now t = (t, None)"
  by (auto simp: ResumeTimer_def)

theorem ResumeTimer_invalid_is_noop_witness:
  "ResumeTimer 2000 exRunning = (exRunning, None) \<and>
   ResumeTimer 2000 exReset = (exReset, None) \<and>
   ResumeTimer 2000 New = (New, None)"
proof -
  have r: "State exRunning = Running \<or> State exRunning = Reset \<or>
      (State exRunning = Stopped \<and> \<not> allowResumeAfterStop exRunning)"
    by (simp add: ex_defs)
  have i: "State exReset = Running \<or> State exReset = Reset \<or>
      (State exReset = Stopped \<and> \<not> allowResumeAfterStop exReset)"
    by (simp add: ex_defs)
  have n: "State New = Running \<or> State New = Reset \<or>
      (State New = Stopped \<and> \<not> allowResumeAfterStop New)"
    by (simp add: ex_defs)
  show ?thesis
    using ResumeTimer_invalid_is_noop [OF r, of 2000] ResumeTimer_invalid_is_noop [OF i, of 2000]
      ResumeTimer_invalid_is_noop [OF n, of 2000]
    by simp
qed

subsection \<open>The update interval\<close>

text \<open>
  Claim C7, as the code has it. \<^verbatim>\<open>SetUpdateInterval\<close> checks the state before the
  value. While the Timer is not Stopped it fails for every \<open>v\<close>, negative ones included,
  with the not-stopped error, and leaves the Timer, its interval included, as it was. On a
  Stopped Timer a negative \<open>v\<close> fails with the error for a bad value and changes
  nothing, \<open>v = 0\<close> succeeds and stores the default, and a positive \<open>v\<close> succeeds and
  is stored. So every negative \<open>v\<close> fails, in every state.
\<close>

theorem SetUpdateInterval_cases:
  "(State t \<noteq> Stopped \<longrightarrow> SetUpdateInterval v t = (t, Some UpdateIntervalNotStopped)) \<and>
   (v < 0 \<longrightarrow> (\<exists>e. SetUpdateInterval v t = (t, Some e))) \<and>
   (State t = Stopped \<and> v < 0 \<longrightarrow> SetUpdateInterval v t = (t, Some InvalidConfigValue)) \<and>
   (State t = Stopped \<and> v = 0 \<longrightarrow>
      SetUpdateInterval v t = (t\<lparr>updateInterval := defaultUpdateInterval\<rparr>, None)) \<and>
   (State t = Stopped \<and> 0 < v \<longrightarrow> SetUpdateInterval v t = (t\<lparr>updateInterval := v\<rparr>, None))"
  by (simp add: SetUpdateInterval_def)

theorem SetUpdateInterval_cases_witness:
  "SetUpdateInterval 25 exRunning = (exRunning, Some UpdateIntervalNotStopped) \<and>
   SetUpdateInterval (- 5) exRunning = (exRunning, Some UpdateIntervalNotStopped) \<and>
   SetUpdateInterval (- 5) New = (New, Some InvalidConfigValue) \<and>
   SetUpdateInterval 0 (New\<lparr>updateInterval := 25\<rparr>) = (New, None) \<and>
   SetUpdateInterval 25 New = (New\<lparr>updateInterval := 25\<rparr>, None)"
  using SetUpdateInterval_cases [of exRunning 25] SetUpdateInterval_cases [of exRunning "- 5"]
    SetUpdateInterval_cases [of New "- 5"]
    SetUpdateInterval_cases [of "New\<lparr>updateInterval := 25\<rparr>" 0]
    SetUpdateInterval_cases [of New 25]
  by (simp add: ex_defs)

text \<open>
  Claim C7 as stated has the error for a bad value for every negative \<open>v\<close>. On a
  Running Timer the state check comes first: \<open>- 5\<close> is refused with the not-stopped
  error, not with the error for a bad value.
\<close>

theorem SetUpdateInterval_negative_while_Running:
  "(- 5 :: int) < 0 \<and> State exRunning = Running \<and>
   SetUpdateInterval (- 5) exRunning = (exRunning, Some UpdateIntervalNotStopped) \<and>
   snd (SetUpdateInterval (- 5) exRunning) \<noteq> Some InvalidConfigValue"
  by (simp add: SetUpdateInterval_def ex_defs)

subsection \<open>The registry\<close>

text \<open>
  Claim C6. \<^verbatim>\<open>AddSubTimer(id)\<close> fails unless the Timer is Reset; on a Reset Timer it
  fails with the duplicate error when the registry holds \<open>id\<close>, and otherwise it stores
  a record in state Reset under \<open>id\<close> and changes no other entry. A \<^verbatim>\<open>ResetTimer\<close> that
  succeeds leaves an empty registry: no identifier is found in it, and every identifier
  can be added again.
\<close>

theorem AddSubTimer_admission:
  "(State t \<noteq> Reset \<longrightarrow> AddSubTimer sid t = (t, Some InvalidState)) \<and>
   (State t = Reset \<and> map_of (subtimers t) sid \<noteq> None \<longrightarrow>
      AddSubTimer sid t = (t, Some (DuplicateIdentifier sid))) \<and>
   (State t = Reset \<and> map_of (subtimers t) sid = None \<longrightarrow>
      snd (AddSubTimer sid t) = None \<and>
      fst (AddSubTimer sid t) =
        t\<lparr>subtimers := AList.update sid \<lparr> Time = 0, state = Reset \<rparr> (subtimers t)\<rparr> \<and>
      map_of (subtimers (fst (AddSubTimer sid t))) sid = Some \<lparr> Time = 0, state = Reset \<rparr> \<and>
      (\<forall>k. k \<noteq> sid \<longrightarrow>
         map_of (subtimers (fst (AddSubTimer sid t))) k = map_of (subtimers t) k)) \<and>
   (snd (ResetTimer t) = None \<longrightarrow>
      State t = Stopped \<and>
      subtimers (fst (ResetTimer t)) = [] \<and>
      (\<forall>k. map_of (subtimers (fst (ResetTimer t))) k = None) \<and>
      (\<forall>k. snd (AddSubTimer k (fst (ResetTimer t))) = None))"
  by (auto simp: AddSubTimer_def ResetTimer_def Let_def map_of_stop_update split: option.splits)

theorem AddSubTimer_admission_witness:
  "AddSubTimer 1 exRunning = (exRunning, Some InvalidState) \<and>
   AddSubTimer 1 exTwoReset = (exTwoReset, Some (DuplicateIdentifier 1)) \<and>
   snd (AddSubTimer 3 exTwoReset) = None \<and>
   map_of (subtimers (fst (AddSubTimer 3 exTwoReset))) 3 = Some \<lparr> Time = 0, state = Reset \<rparr> \<and>
   map_of (subtimers (fst (AddSubTimer 3 exTwoReset))) 1 = map_of (subtimers exTwoReset) 1 \<and>
   snd (ResetTimer exStopped) = None \<and>
   subtimers (fst (ResetTimer exStopped)) = [] \<and>
   snd (AddSubTimer 1 (fst (ResetTimer exStopped))) = None"
  using AddSubTimer_admission [of exRunning 1] AddSubTimer_admission [of exTwoReset 1]
    AddSubTimer_admission [of exTwoReset 3] AddSubTimer_admission [of exStopped]
  by (simp add: ex_defs ResetTimer_def)

subsection \<open>Stopping a subtimer\<close>

text \<open>
  Claim C5. \<^verbatim>\<open>StopSubTimer(id)\<close> on an identifier the registry does not hold returns
  duration 0 and the unknown-identifier error, and changes nothing. On an identifier the
  registry holds, whatever the state of the Timer and of the subtimer, it returns the
  Timer's \<^verbatim>\<open>elapsed\<close> with a nil error, and the registry then holds for \<open>id\<close> the state
  Stopped and that same value; the other entries and \<^verbatim>\<open>elapsed\<close> are as before. (The
  tickers of a Timer in use exist: \<open>tickersReady\<close>.)
\<close>

theorem StopSubTimer_snapshot:
  "(map_of (subtimers t) sid = None \<longrightarrow>
      StopSubTimer sid t = Inr (t, 0, Some (UnknownIdentifier sid))) \<and>
   (map_of (subtimers t) sid \<noteq> None \<and> tickersReady t \<longrightarrow>
      (\<exists>t'. StopSubTimer sid t = Inr (t', elapsed t, None) \<and>
            map_of (subtimers t') sid = Some \<lparr> Time = elapsed t, state = Stopped \<rparr> \<and>
            (\<forall>k. k \<noteq> sid \<longrightarrow> map_of (subtimers t') k = map_of (subtimers t) k) \<and>
            elapsed t' = elapsed t))"
proof (intro conjI impI)
  assume "map_of (subtimers t) sid = None"
  then show "StopSubTimer sid t = Inr (t, 0, Some (UnknownIdentifier sid))"
    by (simp add: StopSubTimer_def)
next
  assume a: "map_of (subtimers t) sid \<noteq> None \<and> tickersReady t"
  then obtain s where s: "map_of (subtimers t) sid = Some s" by auto
  define s1 where "s1 = s\<lparr>state := Stopped, Time := elapsed t\<rparr>"
  define t1 where "t1 = t\<lparr>subtimers := AList.update sid s1 (subtimers t)\<rparr>"
  have s1: "s1 = \<lparr> Time = elapsed t, state = Stopped \<rparr>"
    by (simp add: s1_def)
  have ready: "tickersReady t1"
    using a by (simp add: t1_def)
  show "\<exists>t'. StopSubTimer sid t = Inr (t', elapsed t, None) \<and>
            map_of (subtimers t') sid = Some \<lparr> Time = elapsed t, state = Stopped \<rparr> \<and>
            (\<forall>k. k \<noteq> sid \<longrightarrow> map_of (subtimers t') k = map_of (subtimers t) k) \<and>
            elapsed t' = elapsed t"
  proof (cases "stopOnSubtimersFinish t1 \<and> checkSubTimerFinish t1")
    case False
    then have "StopSubTimer sid t = Inr (t1, elapsed t, None)"
      using s by (auto simp: StopSubTimer_def Let_def t1_def s1_def)
    then show ?thesis
      by (simp add: t1_def s1 map_of_stop_update)
  next
    case True
    from StopTimer_ready [OF ready] obtain t2 e where st: "StopTimer t1 = Inr (t2, e)"
      by blast
    then have keep: "subtimers t2 = subtimers t1 \<and> elapsed t2 = elapsed t1"
      by (auto simp: StopTimer_def Let_def split: if_splits sum.splits)
    have "StopSubTimer sid t = Inr (t2, elapsed t, None)"
      using s True st unfolding t1_def s1_def by (simp add: StopSubTimer_def Let_def)
    then show ?thesis
      using keep by (simp add: t1_def s1 map_of_stop_update)
  qed
qed

theorem StopSubTimer_snapshot_witness:
  "StopSubTimer 7 exTwoRunning = Inr (exTwoRunning, 0, Some (UnknownIdentifier 7)) \<and>
   (\<exists>t'. StopSubTimer 1 exTwoRunning = Inr (t', 4000, None) \<and>
         map_of (subtimers t') 1 = Some \<lparr> Time = 4000, state = Stopped \<rparr> \<and>
         map_of (subtimers t') 2 = Some \<lparr> Time = 0, state = Running \<rparr>)"
proof -
  have absent: "map_of (subtimers exTwoRunning) 7 = None"
    by (simp add: ex_defs)
  have present: "map_of (subtimers exTwoRunning) 1 \<noteq> None \<and> tickersReady exTwoRunning"
    by (simp add: ex_defs tickersReady_def)
  have e: "elapsed exTwoRunning = 4000"
    and other: "map_of (subtimers exTwoRunning) 2 = Some \<lparr> Time = 0, state = Running \<rparr>"
    by (simp_all add: ex_defs)
  from StopSubTimer_snapshot [of exTwoRunning 7] absent
  have first: "StopSubTimer 7 exTwoRunning = Inr (exTwoRunning, 0, Some (UnknownIdentifier 7))"
    by blast
  from StopSubTimer_snapshot [of exTwoRunning 1] present
  obtain t' where "StopSubTimer 1 exTwoRunning = Inr (t', elapsed exTwoRunning, None)"
    and "map_of (subtimers t') 1 = Some \<lparr> Time = elapsed exTwoRunning, state = Stopped \<rparr>"
    and "\<forall>k. k \<noteq> 1 \<longrightarrow> map_of (subtimers t') k = map_of (subtimers exTwoRunning) k"
    by blast
  with e other have "StopSubTimer 1 exTwoRunning = Inr (t', 4000, None) \<and>
         map_of (subtimers t') 1 = Some \<lparr> Time = 4000, state = Stopped \<rparr> \<and>
         map_of (subtimers t') 2 = Some \<lparr> Time = 0, state = Running \<rparr>"
    by simp
  with first show ?thesis by blast
qed

text \<open>
  Claim C10. With \<^verbatim>\<open>stopOnSubtimersFinish\<close> set, on a Timer that is Reset or Stopped, let
  \<^verbatim>\<open>StopSubTimer\<close> be called on a registered identifier while every other subtimer is
  Stopped. Then every subtimer is Stopped after the write (\<open>checkSubTimerFinish\<close>
  holds), \<^verbatim>\<open>StopTimer\<close> is called and returns its invalid-state error without a change,
  and the error is dropped: the call returns \<^verbatim>\<open>elapsed\<close> with a nil error and the
  state of the Timer is as before.
\<close>

theorem StopSubTimer_discards_StopTimer_error:
  "stopOnSubtimersFinish t \<and> (State t = Reset \<or> State t = Stopped) \<and>
   map_of (subtimers t) sid \<noteq> None \<and>
   (\<forall>k s. k \<noteq> sid \<and> map_of (subtimers t) k = Some s \<longrightarrow> state s = Stopped) \<longrightarrow>
   (let t1 = t\<lparr>subtimers :=
                 AList.update sid \<lparr> Time = elapsed t, state = Stopped \<rparr> (subtimers t)\<rparr>
    in checkSubTimerFinish t1 \<and>
       StopTimer t1 = Inr (t1, Some (InvalidStateTransition stopOp)) \<and>
       StopSubTimer sid t = Inr (t1, elapsed t, None) \<and>
       State t1 = State t)"
proof (intro impI)
  assume a: "stopOnSubtimersFinish t \<and> (State t = Reset \<or> State t = Stopped) \<and>
   map_of (subtimers t) sid \<noteq> None \<and>
   (\<forall>k s. k \<noteq> sid \<and> map_of (subtimers t) k = Some s \<longrightarrow> state s = Stopped)"
  define t1 where
    "t1 = t\<lparr>subtimers := AList.update sid \<lparr> Time = elapsed t, state = Stopped \<rparr> (subtimers t)\<rparr>"
  from a obtain s where s: "map_of (subtimers t) sid = Some s" by auto
  have fin: "checkSubTimerFinish t1"
    using a by (auto simp: checkSubTimerFinish_iff t1_def map_of_stop_update split: if_splits)
  have stop: "StopTimer t1 = Inr (t1, Some (InvalidStateTransition stopOp))"
    using a by (auto simp: StopTimer_def t1_def)
  have "StopSubTimer sid t = Inr (t1, elapsed t, None)"
    using s a fin stop unfolding t1_def by (simp add: StopSubTimer_def Let_def)
  with fin stop show "let t1 = t\<lparr>subtimers :=
                 AList.update sid \<lparr> Time = elapsed t, state = Stopped \<rparr> (subtimers t)\<rparr>
    in checkSubTimerFinish t1 \<and>
       StopTimer t1 = Inr (t1, Some (InvalidStateTransition stopOp)) \<and>
       StopSubTimer sid t = Inr (t1, elapsed t, None) \<and>
       State t1 = State t"
    by (simp add: t1_def Let_def)
qed

theorem StopSubTimer_discards_StopTimer_error_witness:
  "StopSubTimer 2 exOneLeft =
     Inr (exOneLeft\<lparr>subtimers := [(1, \<lparr> Time = 0, state = Stopped \<rparr>),
                                     (2, \<lparr> Time = 0, state = Stopped \<rparr>)]\<rparr>, 0, None) \<and>
   StopTimer (exOneLeft\<lparr>subtimers := [(1, \<lparr> Time = 0, state = Stopped \<rparr>),
                                       (2, \<lparr> Time = 0, state = Stopped \<rparr>)]\<rparr>) =
     Inr (exOneLeft\<lparr>subtimers := [(1, \<lparr> Time = 0, state = Stopped \<rparr>),
                                     (2, \<lparr> Time = 0, state = Stopped \<rparr>)]\<rparr>,
          Some (InvalidStateTransition stopOp)) \<and>
   State exOneLeft = Reset"
  using StopSubTimer_discards_StopTimer_error [of exOneLeft 2]
  by (simp add: ex_defs Let_def)

subsection \<open>Stopping both of two subtimers\<close>

lemma StopSubTimer_not_last:
  assumes "map_of (subtimers t) a = Some sa"
    and "map_of (subtimers t) b = Some sb" and "a \<noteq> b" and "state sb \<noteq> Stopped"
  shows "StopSubTimer a t =
    Inr (t\<lparr>subtimers := AList.update a \<lparr> Time = elapsed t, state = Stopped \<rparr> (subtimers t)\<rparr>,
         elapsed t, None)"
proof -
  have "\<not> checkSubTimerFinish
         (t\<lparr>subtimers := AList.update a \<lparr> Time = elapsed t, state = Stopped \<rparr> (subtimers t)\<rparr>)"
    using assms(2-4) by (auto simp: checkSubTimerFinish_iff map_of_stop_update)
  then show ?thesis
    using assms(1) by (simp add: StopSubTimer_def Let_def)
qed

lemma StopSubTimer_last:
  assumes "map_of (subtimers t) b = Some sb"
    and "\<forall>k s. k \<noteq> b \<and> map_of (subtimers t) k = Some s \<longrightarrow> state s = Stopped"
    and "State t = Running" and "ticker t = Some k" and "updateTicker t = Some u"
  shows "\<exists>t2. StopSubTimer b t = Inr (t2, elapsed t, None) \<and>
              State t2 = (if stopOnSubtimersFinish t then Stopped else Running) \<and>
              elapsed t2 = elapsed t"
proof -
  define t1 where
    "t1 = t\<lparr>subtimers := AList.update b \<lparr> Time = elapsed t, state = Stopped \<rparr> (subtimers t)\<rparr>"
  have fin: "checkSubTimerFinish t1"
    using assms(2) by (auto simp: checkSubTimerFinish_iff t1_def map_of_stop_update split: if_splits)
  have "State t1 = Running" "ticker t1 = Some k" "updateTicker t1 = Some u"
    using assms(3-5) by (simp_all add: t1_def)
  note stop = StopTimer_Running [OF this]
  show ?thesis
  proof (cases "stopOnSubtimersFinish t")
    case True
    then have "StopSubTimer b t =
       Inr (t1\<lparr>State := Stopped, ticker := Some (k\<lparr>active := False\<rparr>),
           updateTicker := Some (u\<lparr>active := False\<rparr>)\<rparr>, elapsed t, None)"
      using assms(1) fin stop unfolding t1_def by (simp add: StopSubTimer_def Let_def)
    with True show ?thesis by (simp add: t1_def)
  next
    case False
    then have "StopSubTimer b t = Inr (t1, elapsed t, None)"
      using assms(1) unfolding t1_def by (simp add: StopSubTimer_def Let_def)
    with False assms(3) show ?thesis by (simp add: t1_def)
  qed
qed

lemma stop_two_in_order:
  assumes run: "State t = Running" and k: "ticker t = Some k" and u: "updateTicker t = Some u"
    and ne: "a \<noteq> b" and keys: "fst ` set (subtimers t) = {a, b}"
    and sa: "map_of (subtimers t) a = Some sa"
    and sb: "map_of (subtimers t) b = Some sb" and nb: "state sb \<noteq> Stopped"
  shows "\<exists>t1 t2. StopSubTimer a t = Inr (t1, elapsed t, None) \<and> State t1 = Running \<and>
           StopSubTimer b t1 = Inr (t2, elapsed t, None) \<and>
           State t2 = (if stopOnSubtimersFinish t then Stopped else Running)"
proof -
  define t1 where
    "t1 = t\<lparr>subtimers := AList.update a \<lparr> Time = elapsed t, state = Stopped \<rparr> (subtimers t)\<rparr>"
  have first: "StopSubTimer a t = Inr (t1, elapsed t, None)"
    unfolding t1_def by (rule StopSubTimer_not_last [OF sa sb ne nb])
  have b1: "map_of (subtimers t1) b = Some sb"
    using sb ne by (simp add: t1_def map_of_stop_update)
  have others: "\<forall>j s. j \<noteq> b \<and> map_of (subtimers t1) j = Some s \<longrightarrow> state s = Stopped"
  proof (intro allI impI)
    fix j s
    assume j: "j \<noteq> b \<and> map_of (subtimers t1) j = Some s"
    show "state s = Stopped"
    proof (cases "j = a")
      case True
      with j show ?thesis by (auto simp: t1_def map_of_stop_update)
    next
      case False
      with j have "map_of (subtimers t) j = Some s"
        by (simp add: t1_def map_of_stop_update)
      then have "j \<in> fst ` set (subtimers t)"
        by (metis map_of_eq_None_iff option.distinct(1))
      with keys False j show ?thesis by simp
    qed
  qed
  have "State t1 = Running" "ticker t1 = Some k" "updateTicker t1 = Some u"
    using run k u by (simp_all add: t1_def)
  from StopSubTimer_last [OF b1 others this]
  obtain t2 where "StopSubTimer b t1 = Inr (t2, elapsed t1, None)"
    and "State t2 = (if stopOnSubtimersFinish t1 then Stopped else Running)"
    by blast
  then have "StopSubTimer b t1 = Inr (t2, elapsed t, None) \<and>
      State t2 = (if stopOnSubtimersFinish t then Stopped else Running)"
    by (simp add: t1_def)
  with first run show ?thesis
    by (auto simp: t1_def)
qed

text \<open>
  Claim C2. Take a Running Timer whose registry holds exactly the identifiers \<open>a\<close> and
  \<open>b\<close>, neither subtimer Stopped yet. Stopping \<open>a\<close> then \<open>b\<close>, or \<open>b\<close> then \<open>a\<close>: after
  the first call the Timer is still Running, so that call did not stop it; after the
  second call the Timer is Stopped when \<^verbatim>\<open>stopOnSubtimersFinish\<close> is set, and still
  Running when it is not. Both calls return \<^verbatim>\<open>elapsed\<close> with a nil error.
\<close>

theorem StopSubTimer_both_stops_parent_once:
  assumes "State t = Running" and "ticker t \<noteq> None" and "updateTicker t \<noteq> None"
    and "a \<noteq> b" and "fst ` set (subtimers t) = {a, b}"
    and "map_of (subtimers t) a = Some sa" and "state sa \<noteq> Stopped"
    and "map_of (subtimers t) b = Some sb" and "state sb \<noteq> Stopped"
  shows "(\<exists>t1 t2. StopSubTimer a t = Inr (t1, elapsed t, None) \<and> State t1 = Running \<and>
           StopSubTimer b t1 = Inr (t2, elapsed t, None) \<and>
           State t2 = (if stopOnSubtimersFinish t then Stopped else Running)) \<and>
         (\<exists>t1 t2. StopSubTimer b t = Inr (t1, elapsed t, None) \<and> State t1 = Running \<and>
           StopSubTimer a t1 = Inr (t2, elapsed t, None) \<and>
           State t2 = (if stopOnSubtimersFinish t then Stopped else Running))"
proof -
  from assms(2,3) obtain k u where k: "ticker t = Some k" and u: "updateTicker t = Some u"
    by auto
  have keys': "fst ` set (subtimers t) = {b, a}"
    using assms(5) by auto
  show ?thesis
    using stop_two_in_order [OF assms(1) k u assms(4) assms(5) assms(6) assms(8) assms(9)]
      stop_two_in_order [OF assms(1) k u assms(4) [symmetric] keys' assms(8) assms(6) assms(7)]
    by blast
qed

theorem StopSubTimer_both_stops_parent_once_witness:
  "(\<exists>t1 t2. StopSubTimer 1 exTwoRunningF = Inr (t1, 4000, None) \<and> State t1 = Running \<and>
       StopSubTimer 2 t1 = Inr (t2, 4000, None) \<and> State t2 = Stopped) \<and>
   (\<exists>t1 t2. StopSubTimer 2 exTwoRunningF = Inr (t1, 4000, None) \<and> State t1 = Running \<and>
       StopSubTimer 1 t1 = Inr (t2, 4000, None) \<and> State t2 = Stopped) \<and>
   (\<exists>t1 t2. StopSubTimer 1 exTwoRunning = Inr (t1, 4000, None) \<and> State t1 = Running \<and>
       StopSubTimer 2 t1 = Inr (t2, 4000, None) \<and> State t2 = Running)"
proof -
  have on: "State exTwoRunningF = Running" "ticker exTwoRunningF \<noteq> None"
    "updateTicker exTwoRunningF \<noteq> None" "(1::int) \<noteq> 2"
    "fst ` set (subtimers exTwoRunningF) = {1, 2}"
    "map_of (subtimers exTwoRunningF) 1 = Some \<lparr> Time = 0, state = Running \<rparr>"
    "state \<lparr> Time = 0, state = Running \<rparr> \<noteq> Stopped"
    "map_of (subtimers exTwoRunningF) 2 = Some \<lparr> Time = 0, state = Running \<rparr>"
    "state \<lparr> Time = 0, state = Running \<rparr> \<noteq> Stopped"
    by (simp_all add: ex_defs)
  have off: "State exTwoRunning = Running" "ticker exTwoRunning \<noteq> None"
    "updateTicker exTwoRunning \<noteq> None" "(1::int) \<noteq> 2"
    "fst ` set (subtimers exTwoRunning) = {1, 2}"
    "map_of (subtimers exTwoRunning) 1 = Some \<lparr> Time = 0, state = Running \<rparr>"
    "state \<lparr> Time = 0, state = Running \<rparr> \<noteq> Stopped"
    "map_of (subtimers exTwoRunning) 2 = Some \<lparr> Time = 0, state = Running \<rparr>"
    "state \<lparr> Time = 0, state = Running \<rparr> \<noteq> Stopped"
    by (simp_all add: ex_defs)
  have vals: "elapsed exTwoRunningF = 4000" "stopOnSubtimersFinish exTwoRunningF"
    "elapsed exTwoRunning = 4000" "\<not> stopOnSubtimersFinish exTwoRunning"
    by (simp_all add: ex_defs)
  show ?thesis
    using StopSubTimer_both_stops_parent_once [OF on] StopSubTimer_both_stops_parent_once [OF off]
    by (simp add: vals)
qed

subsection \<open>Pausing and resuming\<close>

text \<open>
  Claim C4. On a Paused Timer \<^verbatim>\<open>ResumeTimer\<close> adds \<^verbatim>\<open>time.Since(pauseTime)\<close> to
  \<^verbatim>\<open>startTime\<close> and sets the state to Running; the amount added is \<open>now - pauseTime\<close>
  whenever that is a Duration. So a Timer that has been running for \<open>a\<close>, is paused for
  \<open>b\<close>, resumed, and ticks \<open>c - d\<close> later (a tick that came \<open>d\<close> before the instant
  \<open>c\<close> after the resume) stores and sends \<open>a + c - d\<close> as elapsed: the pause \<open>b\<close> is
  left out, and the value is \<open>a + c\<close> up to the distance \<open>d\<close> to the last tick.
\<close>

theorem ResumeTimer_excludes_pause:
  "(State t = Paused \<longrightarrow>
      ResumeTimer now t =
        (t\<lparr>startTime := time_Add (startTime t) (time_Since now (pauseTime t)),
           State := Running\<rparr>, None)) \<and>
   (minDuration \<le> now - pauseTime t \<and> now - pauseTime t \<le> maxDuration \<longrightarrow>
      time_Add (startTime t) (time_Since now (pauseTime t)) = startTime t + (now - pauseTime t)) \<and>
   (State t = Running \<and> ticker t \<noteq> None \<and>
    0 \<le> a \<and> 0 \<le> b \<and> 0 \<le> c \<and> b \<le> maxDuration \<and> a + c \<le> maxDuration \<and>
    0 \<le> d \<and> d \<le> c \<longrightarrow>
      (let s = startTime t;
           paused = PauseTimer (s + a) t;
           resumed = ResumeTimer (s + a + b) (fst paused);
           t2 = fst resumed
       in snd paused = None \<and> State (fst paused) = Paused \<and>
          snd resumed = None \<and> State t2 = Running \<and> startTime t2 = s + b \<and>
          timerLoop [s + a + b + c - d] t2 =
            Inr (t2\<lparr>elapsed := a + c - d\<rparr>, [a + c - d])))"
proof (intro conjI impI)
  assume "State t = Paused"
  then show "ResumeTimer now t =
        (t\<lparr>startTime := time_Add (startTime t) (time_Since now (pauseTime t)),
           State := Running\<rparr>, None)"
    by (simp add: ResumeTimer_def resumeAfterPause_def)
next
  assume "minDuration \<le> now - pauseTime t \<and> now - pauseTime t \<le> maxDuration"
  then show "time_Add (startTime t) (time_Since now (pauseTime t)) =
      startTime t + (now - pauseTime t)"
    by (simp add: time_Add_def time_Since_def time_Sub_exact)
next
  assume a: "State t = Running \<and> ticker t \<noteq> None \<and>
    0 \<le> a \<and> 0 \<le> b \<and> 0 \<le> c \<and> b \<le> maxDuration \<and> a + c \<le> maxDuration \<and>
    0 \<le> d \<and> d \<le> c"
  have b: "time_Sub (startTime t + a + b) (startTime t + a) = b"
    using a by (simp add: time_Sub_def minDuration_def)
  have c: "time_Sub (startTime t + a + b + c - d) (startTime t + b) = a + c - d"
    using a by (simp add: time_Sub_def minDuration_def)
  from a obtain k where k: "ticker t = Some k" by auto
  show "let s = startTime t;
           paused = PauseTimer (s + a) t;
           resumed = ResumeTimer (s + a + b) (fst paused);
           t2 = fst resumed
       in snd paused = None \<and> State (fst paused) = Paused \<and>
          snd resumed = None \<and> State t2 = Running \<and> startTime t2 = s + b \<and>
          timerLoop [s + a + b + c - d] t2 =
            Inr (t2\<lparr>elapsed := a + c - d\<rparr>, [a + c - d])"
    using a k b c
    by (simp add: Let_def PauseTimer_def ResumeTimer_def resumeAfterPause_def
        time_Add_def time_Since_def)
qed

theorem ResumeTimer_excludes_pause_witness:
  "ResumeTimer 8000 (exRunning\<lparr>State := Paused, pauseTime := 5000\<rparr>) =
     (exRunning\<lparr>pauseTime := 5000, startTime := 4000\<rparr>, None) \<and>
   PauseTimer 5000 exRunning = (exRunning\<lparr>State := Paused, pauseTime := 5000\<rparr>, None) \<and>
   timerLoop [10000] (exRunning\<lparr>pauseTime := 5000, startTime := 4000\<rparr>) =
     Inr (exRunning\<lparr>pauseTime := 5000, startTime := 4000, elapsed := 6000\<rparr>, [6000])"
  using ResumeTimer_excludes_pause
      [of "exRunning\<lparr>State := Paused, pauseTime := 5000\<rparr>" 8000 4000 3000 2000 0]
    ResumeTimer_excludes_pause [of exRunning 8000 4000 3000 2000 0]
  by (simp add: ex_defs time_defs Let_def PauseTimer_def)

subsection \<open>Ticks\<close>







subsection \<open>Operations outside their state\<close>

text \<open>
  The four operations that call \<^verbatim>\<open>checkValidState\<close> return their error outside their
  state and leave the Timer as it was.
\<close>

theorem guarded_operations_fail_without_change:
  "(State t \<noteq> Reset \<longrightarrow>
      StartTimer now t = Inr (t, Some (InvalidStateTransition startOp))) \<and>
   (State t \<noteq> Running \<longrightarrow>
      PauseTimer now t = (t, Some (InvalidStateTransition pauseOp))) \<and>
   (State t \<noteq> Running \<and> State t \<noteq> Paused \<longrightarrow>
      StopTimer t = Inr (t, Some (InvalidStateTransition stopOp))) \<and>
   (State t \<noteq> Stopped \<longrightarrow>
      ResetTimer t = (t, Some (InvalidStateTransition resetOp)))"
  by (simp add: StartTimer_def PauseTimer_def StopTimer_def ResetTimer_def)

theorem guarded_operations_fail_without_change_witness:
  "StartTimer 2000 exRunning = Inr (exRunning, Some (InvalidStateTransition startOp)) \<and>
   PauseTimer 2000 exReset = (exReset, Some (InvalidStateTransition pauseOp)) \<and>
   StopTimer exReset = Inr (exReset, Some (InvalidStateTransition stopOp)) \<and>
   ResetTimer exRunning = (exRunning, Some (InvalidStateTransition resetOp))"
  using guarded_operations_fail_without_change [of exRunning 2000]
    guarded_operations_fail_without_change [of exReset 2000]
  by (simp add: ex_defs)

text \<open>
  Claim C1 at a Running Timer. \<^verbatim>\<open>ResumeTimer\<close> is not allowed there
  (\<^verbatim>\<open>checkValidState\<close> says so for \<^verbatim>\<open>resumeOp\<close>), and it returns nil where the claim
  has an error; the Timer is unchanged.
\<close>

theorem ResumeTimer_Running_returns_nil:
  "State exRunning = Running \<and>
   checkValidState exRunning resumeOp = False \<and>
   ResumeTimer 2000 exRunning = (exRunning, None)"
  by (simp add: ResumeTimer_def ex_defs)


subsection \<open>The invariant, in one statement\<close>

text \<open>
  \<open>New\<close> has \<open>tickersReady\<close>, every operation and every run of the loop keeps it, and
  under it \<^verbatim>\<open>StopTimer\<close> does not panic.
\<close>

theorem tickersReady_invariant:
  "tickersReady New \<and>
   (tickersReady t \<longrightarrow>
      tickersReady (fst (SetUpdateInterval v t)) \<and>
      tickersReady (fst (ResetTimer t)) \<and>
      tickersReady (fst (PauseTimer now t)) \<and>
      tickersReady (fst (ResumeTimer now t)) \<and>
      tickersReady (fst (AddSubTimer sid t)) \<and>
      tickersReady (startSubTimers t) \<and>
      (\<forall>t' e. StartTimer now t = Inr (t', e) \<longrightarrow> tickersReady t') \<and>
      (\<forall>t' e. StopTimer t = Inr (t', e) \<longrightarrow> tickersReady t') \<and>
      (\<forall>t' d e. StopSubTimer sid t = Inr (t', d, e) \<longrightarrow> tickersReady t') \<and>
      (\<forall>t' sent. timerLoop ticks t = Inr (t', sent) \<longrightarrow> tickersReady t') \<and>
      (\<exists>t' e. StopTimer t = Inr (t', e)))"
proof (intro conjI impI allI)
  show "tickersReady New" by (rule tickersReady_New)
next
  assume r: "tickersReady t"
  show "tickersReady (fst (SetUpdateInterval v t))"
    by (rule tickersReady_SetUpdateInterval [OF r])
  show "tickersReady (fst (ResetTimer t))"
    by (rule tickersReady_ResetTimer [OF r])
  show "tickersReady (fst (PauseTimer now t))"
    by (rule tickersReady_PauseTimer [OF r])
  show "tickersReady (fst (ResumeTimer now t))"
    by (rule tickersReady_ResumeTimer [OF r])
  show "tickersReady (fst (AddSubTimer sid t))"
    by (rule tickersReady_AddSubTimer [OF r])
  show "tickersReady (startSubTimers t)"
    by (rule tickersReady_startSubTimers [OF r])
  show "\<exists>t' e. StopTimer t = Inr (t', e)"
    by (rule StopTimer_ready [OF r])
  show "tickersReady t'" if "StartTimer now t = Inr (t', e)" for t' e
    by (rule tickersReady_StartTimer [OF that r])
  show "tickersReady t'" if "StopTimer t = Inr (t', e)" for t' e
    by (rule tickersReady_StopTimer [OF that r])
  show "tickersReady t'" if "StopSubTimer sid t = Inr (t', d, e)" for t' d e
    by (rule tickersReady_StopSubTimer [OF that r])
  show "tickersReady t'" if "timerLoop ticks t = Inr (t', sent)" for t' sent
    by (rule tickersReady_timerLoop [OF that r])
qed

theorem tickersReady_invariant_witness:
  "tickersReady exRunning \<and> tickersReady (fst (ResetTimer exRunning)) \<and>
   tickersReady (fst (PauseTimer 2000 exRunning))"
proof -
  have r: "tickersReady exRunning"
    by (simp add: tickersReady_def ex_defs)
  note kept = tickersReady_invariant [of exRunning 0 2000 0 "[]", THEN conjunct2, THEN mp, OF r]
  note reset = kept [THEN conjunct2, THEN conjunct1]
  note pause = kept [THEN conjunct2, THEN conjunct2, THEN conjunct1]
  from r reset pause show ?thesis
    by (intro conjI)
qed

end
